theory Spec2Isabelle
  imports Main "HOL-Library.Word" "HOL-Library.List_Lexorder" "HOL-Library.Sublist"
begin

section \<open>Byte slices, versions, errors and panics\<close>

text \<open>
  A Go \<open>[]byte\<close> is either \<open>nil\<close> or a (possibly empty) sequence of bytes; the store
  tells the two apart (\<open>Get\<close> answers \<open>nil\<close> for an absent key, \<open>AssertValidValue\<close>
  rejects \<open>nil\<close>), so a slice is an optional byte list and \<open>None\<close> is \<open>nil\<close>.
  Versions and heights are Go \<open>int64\<close>: 64-bit words, on which \<open>latest - 1\<close> wraps.
\<close>

type_synonym byte = "8 word"
type_synonym bytes = "byte list option"
type_synonym int64 = "64 word"

definition len :: "bytes \<Rightarrow> nat" where
  "len b = (case b of None \<Rightarrow> 0 | Some xs \<Rightarrow> length xs)"

text \<open>The bytes a slice holds: \<open>nil\<close> and the empty slice hold the same (no) bytes.\<close>

definition raw :: "bytes \<Rightarrow> byte list" where
  "raw b = (case b of None \<Rightarrow> [] | Some xs \<Rightarrow> xs)"

text \<open>
  Go \<open>error\<close> values. The constructors \<open>Errorf_v\<close>, \<open>Errorf_vw\<close> and \<open>Errorf_w\<close> keep
  the format string of a \<open>fmt.Errorf\<close> call with its arguments (a version for \<open>%v\<close>, the
  wrapped error for \<open>%w\<close>) instead of rendering the message.
\<close>

datatype error =
    ErrVersionDoesNotExist
  | ErrVersionMismatch int64 int64
  | ErrKeyNotInTree
  | ErrKeyInTree
  | Errorf_v string int64
  | Errorf_vw string int64 error
  | Errorf_w string error

text \<open>
  A Go panic, with what it carries: a plain string, a \<open>fmt.Sprintf\<close> with one \<open>%s\<close>
  argument (the text of an error), or an error value. \<open>InvalidKey\<close> and \<open>InvalidValue\<close>
  are the panics of the validity assertions, \<open>ImmutableMutation\<close> the one of a write to
  a read-only tree.
\<close>

datatype panic =
    InvalidKey
  | InvalidValue
  | ImmutableMutation
  | PanicString string
  | PanicSprintf string error
  | PanicError error

section \<open>The Tree capability\<close>

text \<open>
  Modelled from the spec: the \<open>Tree\<close> interface and its two implementations (the mutable
  IAVL tree and the \<open>immutableTree\<close> wrapper) are not among the source files; the store
  only calls them. The spec describes the capability as an ordered, versioned mapping
  with \<open>get\<close>, \<open>has\<close>, \<open>set\<close>, \<open>remove\<close>, \<open>version\<close>, \<open>hash\<close>, \<open>versionExists\<close>,
  \<open>getImmutable\<close> and an ordered iterator, where \<open>VersionExists h\<close> agrees with whether
  a historical read at \<open>h\<close> can succeed, and where a store bound to a historical version
  refuses every mutation with a panic.

  The contents of a tree are an association list kept in ascending key order by
  \<open>upsert\<close>. An immutable tree is one snapshot: its version, its contents and its root
  hash. A mutable tree embeds the working tree (as \<open>iavl.MutableTree\<close> embeds
  \<open>*ImmutableTree\<close>, which \<open>Query\<close> relies on) and keeps the committed snapshots by
  version.
\<close>

type_synonym nodes = "(byte list \<times> byte list) list"

record ImmutableTree =
  it_version :: int64
  it_nodes :: nodes
  it_hash :: bytes

record MutableTree =
  working :: ImmutableTree
  versions :: "(int64 \<times> nodes \<times> bytes) list"

datatype Tree = Mutable MutableTree | Immutable ImmutableTree

text \<open>The zero value \<open>&iavl.ImmutableTree{}\<close>: version 0, no nodes, no hash.\<close>

definition empty_ImmutableTree :: ImmutableTree where
  "empty_ImmutableTree = \<lparr>it_version = 0, it_nodes = [], it_hash = None\<rparr>"

text \<open>
  Modelled from the spec: \<open>set\<close> and \<open>remove\<close> on the ordered contents. \<open>upsert\<close>
  replaces the value of a key that is there and inserts a new key at its place in the
  key order; \<open>remove_key\<close> drops every pair of the key.
\<close>

fun upsert :: "byte list \<Rightarrow> byte list \<Rightarrow> nodes \<Rightarrow> nodes" where
  "upsert k v [] = [(k, v)]"
| "upsert k v ((k', v') # ns) =
     (if k < k' then (k, v) # (k', v') # ns
      else if k = k' then (k, v) # ns
      else (k', v') # upsert k v ns)"

definition remove_key :: "byte list \<Rightarrow> nodes \<Rightarrow> nodes" where
  "remove_key k ns = filter (\<lambda>n. fst n \<noteq> k) ns"

text \<open>
  Modelled from the spec: the contents the tree reads and iterates (the working version
  of a mutable tree, the snapshot of an immutable one), \<open>version\<close> and \<open>hash\<close>.
\<close>

definition working_nodes :: "Tree \<Rightarrow> nodes" where
  "working_nodes t = (case t of Mutable m \<Rightarrow> it_nodes (working m) | Immutable i \<Rightarrow> it_nodes i)"

definition tree_Version :: "Tree \<Rightarrow> int64" where
  "tree_Version t = (case t of Mutable m \<Rightarrow> it_version (working m) | Immutable i \<Rightarrow> it_version i)"

definition tree_Hash :: "Tree \<Rightarrow> bytes" where
  "tree_Hash t = (case t of Mutable m \<Rightarrow> it_hash (working m) | Immutable i \<Rightarrow> it_hash i)"

text \<open>
  Modelled from the spec: \<open>versionExists\<close>. A mutable tree has the versions it has
  committed and not pruned; a view bound to a historical version has that version only.
\<close>

definition tree_VersionExists :: "Tree \<Rightarrow> int64 \<Rightarrow> bool" where
  "tree_VersionExists t version =
     (case t of
        Mutable m \<Rightarrow> version \<in> set (map fst (versions m))
      | Immutable i \<Rightarrow> it_version i = version)"

text \<open>
  Modelled from the spec: \<open>get\<close> and \<open>has\<close> read the working contents; an absent key
  reads as \<open>nil\<close>.
\<close>

definition tree_Get :: "Tree \<Rightarrow> bytes \<Rightarrow> bytes" where
  "tree_Get t key = map_of (working_nodes t) (raw key)"

definition tree_Has :: "Tree \<Rightarrow> bytes \<Rightarrow> bool" where
  "tree_Has t key = (raw key \<in> set (map fst (working_nodes t)))"

text \<open>
  Modelled from the spec: \<open>set\<close> and \<open>remove\<close> write the working version of a mutable
  tree (removing an absent key changes nothing) and panic on an immutable tree.
\<close>

definition tree_Set :: "Tree \<Rightarrow> bytes \<Rightarrow> bytes \<Rightarrow> panic + Tree" where
  "tree_Set t key val =
     (case t of
        Mutable m \<Rightarrow>
          Inr (Mutable (m\<lparr>working := (working m)\<lparr>it_nodes :=
                 upsert (raw key) (raw val) (it_nodes (working m))\<rparr>\<rparr>))
      | Immutable i \<Rightarrow> Inl ImmutableMutation)"

definition tree_Remove :: "Tree \<Rightarrow> bytes \<Rightarrow> panic + Tree" where
  "tree_Remove t key =
     (case t of
        Mutable m \<Rightarrow>
          Inr (Mutable (m\<lparr>working := (working m)\<lparr>it_nodes :=
                 remove_key (raw key) (it_nodes (working m))\<rparr>\<rparr>))
      | Immutable i \<Rightarrow> Inl ImmutableMutation)"

text \<open>
  Modelled from the spec: the historical reads. \<open>GetVersioned\<close> reads a key in the
  snapshot of a version and answers \<open>nil\<close> when the version or the key is not there;
  \<open>getImmutable\<close> hands out the snapshot of a version and fails when there is none, so
  that both succeed exactly on the versions \<open>versionExists\<close> reports.
\<close>

definition tree_GetVersioned :: "Tree \<Rightarrow> bytes \<Rightarrow> int64 \<Rightarrow> bytes" where
  "tree_GetVersioned t key version =
     (case t of
        Mutable m \<Rightarrow>
          (case map_of (versions m) version of
             None \<Rightarrow> None
           | Some snap \<Rightarrow> map_of (fst snap) (raw key))
      | Immutable i \<Rightarrow>
          (if it_version i \<noteq> version then None else map_of (it_nodes i) (raw key)))"

definition tree_GetImmutable :: "Tree \<Rightarrow> int64 \<Rightarrow> error + ImmutableTree" where
  "tree_GetImmutable t version =
     (case t of
        Mutable m \<Rightarrow>
          (case map_of (versions m) version of
             None \<Rightarrow> Inl ErrVersionDoesNotExist
           | Some snap \<Rightarrow>
               Inr \<lparr>it_version = version, it_nodes = fst snap, it_hash = snd snap\<rparr>)
      | Immutable i \<Rightarrow>
          (if it_version i \<noteq> version then Inl (ErrVersionMismatch version (it_version i))
           else Inr i))"

section \<open>The commit store\<close>

text \<open>\<open>type Store struct { tree Tree }\<close>\<close>

record Store =
  tree :: Tree

text \<open>
  Modelled from the spec: \<open>types.AssertValidKey\<close> and \<open>types.AssertValidValue\<close> are not
  among the source files. A key must be non-nil, non-empty and within an
  implementation-defined length bound, here the parameter \<open>maxKeyLength\<close>; a \<open>nil\<close>
  value is rejected (the spec's "nil/empty" value is read as the \<open>nil\<close> slice, since an
  empty value can be stored and is told apart from an absent one). The result is the
  panic raised, or \<open>None\<close> when the assertion passes.
\<close>

definition AssertValidKey :: "nat \<Rightarrow> bytes \<Rightarrow> panic option" where
  "AssertValidKey maxKeyLength key =
     (if len key = 0 then Some InvalidKey
      else if len key > maxKeyLength then Some InvalidKey
      else None)"

definition AssertValidValue :: "bytes \<Rightarrow> panic option" where
  "AssertValidValue val = (if val = None then Some InvalidValue else None)"

text \<open>
  A method that mutates the store returns the store it leaves behind together with its
  outcome: \<open>Inr ()\<close> when it returns, \<open>Inl p\<close> when it panics with \<open>p\<close>. (The deferred
  telemetry calls measure time only and are left out.)
\<close>

definition VersionExists :: "Store \<Rightarrow> int64 \<Rightarrow> bool" where
  "VersionExists st version = tree_VersionExists (tree st) version"

definition Set :: "nat \<Rightarrow> Store \<Rightarrow> bytes \<Rightarrow> bytes \<Rightarrow> (panic + unit) \<times> Store" where
  "Set maxKeyLength st key val =
     (case AssertValidKey maxKeyLength key of
        Some p \<Rightarrow> (Inl p, st)
      | None \<Rightarrow>
          (case AssertValidValue val of
             Some p \<Rightarrow> (Inl p, st)
           | None \<Rightarrow>
               (case tree_Set (tree st) key val of
                  Inl p \<Rightarrow> (Inl p, st)
                | Inr t' \<Rightarrow> (Inr (), st\<lparr>tree := t'\<rparr>))))"

definition Get :: "Store \<Rightarrow> bytes \<Rightarrow> bytes" where
  "Get st key = tree_Get (tree st) key"

definition Has :: "Store \<Rightarrow> bytes \<Rightarrow> bool" where
  "Has st key = tree_Has (tree st) key"

definition Delete :: "Store \<Rightarrow> bytes \<Rightarrow> (panic + unit) \<times> Store" where
  "Delete st key =
     (case tree_Remove (tree st) key of
        Inl p \<Rightarrow> (Inl p, st)
      | Inr t' \<Rightarrow> (Inr (), st\<lparr>tree := t'\<rparr>))"

text \<open>\<open>types.CommitID\<close>\<close>

record CommitID =
  Version :: int64
  Hash :: bytes

definition LastCommitID :: "Store \<Rightarrow> CommitID" where
  "LastCommitID st = \<lparr>Version = tree_Version (tree st), Hash = tree_Hash (tree st)\<rparr>"

text \<open>
  \<open>GetImmutable\<close>: a new store backed by an immutable tree at \<open>version\<close>; when the
  version does not exist the store is backed by the empty immutable tree and no error is
  returned.
\<close>

definition GetImmutable :: "Store \<Rightarrow> int64 \<Rightarrow> error + Store" where
  "GetImmutable st version =
     (if \<not> VersionExists st version then Inr \<lparr>tree = Immutable empty_ImmutableTree\<rparr>
      else
        (case tree_GetImmutable (tree st) version of
           Inl err \<Rightarrow> Inl err
         | Inr iTree \<Rightarrow> Inr \<lparr>tree = Immutable iTree\<rparr>))"

text \<open>
  \<open>Export\<close>. The wrapper's \<open>Export\<close> method and \<open>iavl.Exporter\<close> are not among the
  source files, and the spec only says that an export needs a fully materialized
  snapshot; the call \<open>tree.Export()\<close> is therefore the parameter \<open>tree_Export\<close>, which
  yields an exporter or panics. \<open>Export\<close> itself returns an exporter or an error, or
  panics when that call does. The type assertion \<open>istore.tree.(*immutableTree)\<close>
  succeeds exactly on the \<open>Immutable\<close> variant (a typed nil pointer cannot come out of
  \<open>GetImmutable\<close> and has no counterpart here).
\<close>

definition Export ::
  "(ImmutableTree \<Rightarrow> panic + 'exporter) \<Rightarrow> Store \<Rightarrow> int64 \<Rightarrow> panic + (error + 'exporter)" where
  "Export tree_Export st version =
     (case GetImmutable st version of
        Inl err \<Rightarrow> Inr (Inl (Errorf_vw ''iavl export failed for version %v: %w'' version err))
      | Inr istore \<Rightarrow>
          (case tree istore of
             Immutable t \<Rightarrow>
               (case tree_Export t of
                  Inl p \<Rightarrow> Inl p
                | Inr exporter \<Rightarrow> Inr (Inr exporter))
           | Mutable m \<Rightarrow>
               Inr (Inl (Errorf_v
                 ''iavl export failed: unable to fetch tree for version %v'' version))))"

text \<open>
  \<open>SetPruning\<close> and \<open>GetPruning\<close> panic whatever they are given; the pruning options
  are never inspected, so their type is left open.
\<close>

definition SetPruning :: "Store \<Rightarrow> 'opts \<Rightarrow> (panic + unit) \<times> Store" where
  "SetPruning st opts =
     (Inl (PanicString ''cannot set pruning options on an initialized IAVL store''), st)"

definition GetPruning :: "Store \<Rightarrow> (panic + 'opts) \<times> Store" where
  "GetPruning st =
     (Inl (PanicString ''cannot get pruning options on an initialized IAVL store''), st)"

section \<open>Commitment proofs\<close>

text \<open>
  Modelled from the spec: the commitment proofs and the tree's \<open>GetMembershipProof\<close> and
  \<open>GetNonMembershipProof\<close> are not among the source files. A proof asserts either that
  a key maps to a value or that a key is absent, bound to a root hash; a membership
  proof can be built exactly for a key the tree holds, a non-membership proof exactly
  for a key it does not hold. The envelope \<open>ProofOp\<close> carries the key and the proof.
\<close>

datatype CommitmentProof =
    Membership "byte list" "byte list" bytes
  | NonMembership "byte list" bytes

record ProofOp =
  op_key :: bytes
  op_proof :: CommitmentProof

definition GetMembershipProof :: "MutableTree \<Rightarrow> bytes \<Rightarrow> error + CommitmentProof" where
  "GetMembershipProof m key =
     (case map_of (it_nodes (working m)) (raw key) of
        None \<Rightarrow> Inl ErrKeyNotInTree
      | Some v \<Rightarrow> Inr (Membership (raw key) v (it_hash (working m))))"

definition GetNonMembershipProof :: "MutableTree \<Rightarrow> bytes \<Rightarrow> error + CommitmentProof" where
  "GetNonMembershipProof m key =
     (case map_of (it_nodes (working m)) (raw key) of
        None \<Rightarrow> Inr (NonMembership (raw key) (it_hash (working m)))
      | Some v \<Rightarrow> Inl ErrKeyInTree)"

definition NewIavlCommitmentOp :: "bytes \<Rightarrow> CommitmentProof \<Rightarrow> ProofOp" where
  "NewIavlCommitmentOp key proof = \<lparr>op_key = key, op_proof = proof\<rparr>"

definition getProofFromTree :: "MutableTree \<Rightarrow> bytes \<Rightarrow> bool \<Rightarrow> panic + ProofOp list" where
  "getProofFromTree m key exists =
     (if exists then
        (case GetMembershipProof m key of
           Inl err \<Rightarrow> Inl (PanicSprintf ''unexpected value for empty proof: %s'' err)
         | Inr commitmentProof \<Rightarrow> Inr [NewIavlCommitmentOp key commitmentProof])
      else
        (case GetNonMembershipProof m key of
           Inl err \<Rightarrow> Inl (PanicSprintf ''unexpected error for nonexistence proof: %s'' err)
         | Inr commitmentProof \<Rightarrow> Inr [NewIavlCommitmentOp key commitmentProof]))"

section \<open>Requests and height selection\<close>

text \<open>\<open>abci.RequestQuery\<close>\<close>

record RequestQuery =
  ReqData :: bytes
  ReqPath :: string
  ReqHeight :: int64
  ReqProve :: bool

definition getHeight :: "Tree \<Rightarrow> RequestQuery \<Rightarrow> int64" where
  "getHeight t req =
     (let height = ReqHeight req in
      if height = 0 then
        (let latest = tree_Version t in
         if tree_VersionExists t (latest - 1) then latest - 1 else latest)
      else height)"

section \<open>The query dispatcher\<close>

text \<open>
  Modelled from the spec: \<open>sdkerrors.QueryResult\<close> and the registered errors are not
  among the source files. A response built from an error is a hard failure: it carries
  the error's code (here the error itself; \<open>None\<close> is code 0, success) and its text in the
  log, and nothing else.
\<close>

datatype sdk_error = ErrTxDecode | ErrUnknownRequest

record ResponseQuery =
  ResCode :: "sdk_error option"
  ResLog :: string
  ResHeight :: int64
  ResKey :: bytes
  ResValue :: bytes
  ResProofOps :: "ProofOp list option"

definition zero_ResponseQuery :: ResponseQuery where
  "zero_ResponseQuery =
     \<lparr>ResCode = None, ResLog = [], ResHeight = 0, ResKey = None, ResValue = None,
      ResProofOps = None\<rparr>"

definition QueryResult :: "sdk_error \<Rightarrow> string \<Rightarrow> ResponseQuery" where
  "QueryResult e description = zero_ResponseQuery\<lparr>ResCode := Some e, ResLog := description\<rparr>"

text \<open>\<open>iavl.ErrVersionDoesNotExist.Error()\<close>\<close>

definition ErrVersionDoesNotExist_Error :: string where
  "ErrVersionDoesNotExist_Error = ''version does not exist''"

text \<open>
  Modelled from the spec: \<open>types.KVStorePrefixIterator\<close> is not among the source files;
  it iterates, in ascending key order, over the pairs of the working store whose key
  lies in \<open>[prefix, successor(prefix))\<close>, that is, whose key starts with the prefix. An
  iterator is the list of the pairs it still has to yield.
\<close>

definition KVStorePrefixIterator :: "Store \<Rightarrow> bytes \<Rightarrow> nodes" where
  "KVStorePrefixIterator st pre =
     filter (\<lambda>n. prefix (raw pre) (fst n)) (working_nodes (tree st))"

text \<open>The loop of the subspace scan: append the iterator's current pair, then advance.\<close>

fun collect_pairs :: "nodes \<Rightarrow> nodes \<Rightarrow> nodes" where
  "collect_pairs [] pairs = pairs"
| "collect_pairs (n # iterator) pairs = collect_pairs iterator (pairs @ [n])"

text \<open>
  \<open>Query\<close>. The serialisation \<open>pairs.Marshal()\<close> belongs to generated code that is not
  among the source files and is taken as the parameter \<open>marshal\<close>. The result is the
  response, or the panic, together with the store as the call leaves it.
\<close>

definition Query ::
  "(nodes \<Rightarrow> error + byte list) \<Rightarrow> Store \<Rightarrow> RequestQuery \<Rightarrow> (panic + ResponseQuery) \<times> Store" where
  "Query marshal st req =
     (if len (ReqData req) = 0 then
        (Inr (QueryResult ErrTxDecode ''query cannot be zero length''), st)
      else
        (let t = tree st;
             res = zero_ResponseQuery\<lparr>ResHeight := getHeight t req\<rparr>
         in
         if ReqPath req = ''/key'' then
           (let key = ReqData req;
                res = res\<lparr>ResKey := key\<rparr>
            in
            if \<not> VersionExists st (ResHeight res) then
              (Inr (res\<lparr>ResLog := ErrVersionDoesNotExist_Error\<rparr>), st)
            else
              (let res = res\<lparr>ResValue := tree_GetVersioned t key (ResHeight res)\<rparr> in
               if \<not> ReqProve req then (Inr res, st)
               else
                 (case tree_GetImmutable t (ResHeight res) of
                    Inl err \<Rightarrow>
                      (Inl (PanicSprintf
                         ''version exists in store but could not retrieve corresponding versioned tree in store, %s''
                         err), st)
                  | Inr iTree \<Rightarrow>
                      (let mtree = \<lparr>working = iTree, versions = []\<rparr> in
                       case getProofFromTree mtree (ReqData req) (ResValue res \<noteq> None) of
                         Inl p \<Rightarrow> (Inl p, st)
                       | Inr ops \<Rightarrow> (Inr (res\<lparr>ResProofOps := Some ops\<rparr>), st)))))
         else if ReqPath req = ''/subspace'' then
           (let subspace = ReqData req;
                res = res\<lparr>ResKey := subspace\<rparr>;
                pairs = collect_pairs (KVStorePrefixIterator st subspace) []
            in
            case marshal pairs of
              Inl err \<Rightarrow> (Inl (PanicError (Errorf_w ''failed to marshal KV pairs: %w'' err)), st)
            | Inr bz \<Rightarrow> (Inr (res\<lparr>ResValue := Some bz\<rparr>), st))
         else
           (Inr (QueryResult ErrUnknownRequest (''unexpected query path: '' @ ReqPath req)), st)))"

section \<open>Example stores\<close>

text \<open>
  The scenario of the spec: \<open>Set("a","1")\<close>, \<open>Set("b","2")\<close>, \<open>Commit\<close> (version 1),
  \<open>Delete("a")\<close>, \<open>Commit\<close> (version 2); then \<open>Set("c","3")\<close> is pending in the working
  version. The root hashes are placeholders.
\<close>

definition key_a :: "byte list" where "key_a = [0x61]"
definition key_b :: "byte list" where "key_b = [0x62]"
definition key_c :: "byte list" where "key_c = [0x63]"
definition val_1 :: "byte list" where "val_1 = [0x31]"
definition val_2 :: "byte list" where "val_2 = [0x32]"
definition val_3 :: "byte list" where "val_3 = [0x33]"

definition committed_store :: Store where
  "committed_store =
     \<lparr>tree = Mutable
        \<lparr>working = \<lparr>it_version = 2, it_nodes = [(key_b, val_2), (key_c, val_3)],
                     it_hash = Some [0x02]\<rparr>,
         versions = [(1, [(key_a, val_1), (key_b, val_2)], Some [0x01]),
                     (2, [(key_b, val_2)], Some [0x02])]\<rparr>\<rparr>"

text \<open>A store on which nothing was ever committed, with one pending write.\<close>

definition fresh_store :: Store where
  "fresh_store =
     \<lparr>tree = Mutable
        \<lparr>working = \<lparr>it_version = 0, it_nodes = [(key_a, val_1)], it_hash = None\<rparr>,
         versions = []\<rparr>\<rparr>"

text \<open>A serialisation that always succeeds, for evaluating the subspace scan.\<close>

definition concat_marshal :: "nodes \<Rightarrow> error + byte list" where
  "concat_marshal pairs = Inr (concat (map (\<lambda>n. fst n @ snd n) pairs))"

section \<open>Properties\<close>

subsection \<open>Height selection\<close>

text \<open>
  C1. For every query request: if the request's height is 0, the resolved height is
  \<open>latest - 1\<close> when that version exists in the tree and \<open>latest\<close> (the tree's current
  version) otherwise; if the request's height is not 0, the resolved height is the
  requested height.
\<close>

theorem getHeight_policy:
  "(ReqHeight req = 0 \<and> tree_VersionExists t (tree_Version t - 1)
      \<longrightarrow> getHeight t req = tree_Version t - 1)
   \<and> (ReqHeight req = 0 \<and> \<not> tree_VersionExists t (tree_Version t - 1)
      \<longrightarrow> getHeight t req = tree_Version t)
   \<and> (ReqHeight req \<noteq> 0 \<longrightarrow> getHeight t req = ReqHeight req)"
  by (simp add: getHeight_def Let_def)

theorem getHeight_policy_witness:
  "getHeight (tree committed_store)
     \<lparr>ReqData = Some key_a, ReqPath = ''/key'', ReqHeight = 0, ReqProve = False\<rparr> = 1
   \<and> getHeight (tree fresh_store)
     \<lparr>ReqData = Some key_a, ReqPath = ''/key'', ReqHeight = 0, ReqProve = False\<rparr> = 0
   \<and> getHeight (tree committed_store)
     \<lparr>ReqData = Some key_a, ReqPath = ''/key'', ReqHeight = 5, ReqProve = False\<rparr> = 5"
proof -
  let ?r0 = "\<lparr>ReqData = Some key_a, ReqPath = ''/key'', ReqHeight = 0, ReqProve = False\<rparr>"
  let ?r5 = "\<lparr>ReqData = Some key_a, ReqPath = ''/key'', ReqHeight = 5, ReqProve = False\<rparr>"
  have a: "ReqHeight ?r0 = 0
      \<and> tree_VersionExists (tree committed_store) (tree_Version (tree committed_store) - 1)"
    by (simp add: committed_store_def tree_VersionExists_def tree_Version_def)
  have b: "ReqHeight ?r0 = 0
      \<and> \<not> tree_VersionExists (tree fresh_store) (tree_Version (tree fresh_store) - 1)"
    by (simp add: fresh_store_def tree_VersionExists_def tree_Version_def)
  have c: "ReqHeight ?r5 \<noteq> 0" by simp
  from a getHeight_policy [of ?r0 "tree committed_store"]
  have "getHeight (tree committed_store) ?r0 = tree_Version (tree committed_store) - 1"
    by blast
  moreover from b getHeight_policy [of ?r0 "tree fresh_store"]
  have "getHeight (tree fresh_store) ?r0 = tree_Version (tree fresh_store)"
    by blast
  moreover from c getHeight_policy [of ?r5 "tree committed_store"]
  have "getHeight (tree committed_store) ?r5 = ReqHeight ?r5"
    by blast
  ultimately show ?thesis
    by (simp add: committed_store_def fresh_store_def tree_Version_def)
qed

subsection \<open>Reading and writing the working store\<close>

lemma map_of_upsert_same: "map_of (upsert k v ns) k = Some v"
  by (induction ns) auto

lemma map_of_remove_key_same: "map_of (remove_key k ns) k = None"
  by (auto simp add: remove_key_def map_of_eq_None_iff)

lemma Has_iff_Get: "Has st k \<longleftrightarrow> Get st k \<noteq> None"
  by (simp add: Has_def Get_def tree_Has_def tree_Get_def map_of_eq_None_iff)

lemma valid_value_Some: "AssertValidValue v = None \<Longrightarrow> Some (raw v) = v"
  by (cases v) (simp_all add: AssertValidValue_def raw_def)

lemma Set_valid_Mutable:
  assumes "tree st = Mutable m" "AssertValidKey lim k = None" "AssertValidValue v = None"
  shows "Set lim st k v =
           (Inr (), st\<lparr>tree := Mutable (m\<lparr>working := (working m)\<lparr>it_nodes :=
              upsert (raw k) (raw v) (it_nodes (working m))\<rparr>\<rparr>)\<rparr>)"
  using assms by (simp add: Set_def tree_Set_def)

lemma Delete_Mutable:
  assumes "tree st = Mutable m"
  shows "Delete st k =
           (Inr (), st\<lparr>tree := Mutable (m\<lparr>working := (working m)\<lparr>it_nodes :=
              remove_key (raw k) (it_nodes (working m))\<rparr>\<rparr>)\<rparr>)"
  using assms by (simp add: Delete_def tree_Remove_def)

lemma committed_store_Mutable:
  "tree committed_store = Mutable
        \<lparr>working = \<lparr>it_version = 2, it_nodes = [(key_b, val_2), (key_c, val_3)],
                     it_hash = Some [0x02]\<rparr>,
         versions = [(1, [(key_a, val_1), (key_b, val_2)], Some [0x01]),
                     (2, [(key_b, val_2)], Some [0x02])]\<rparr>"
  by (simp add: committed_store_def)

text \<open>
  C2, as stated (for all keys and values, \<open>Set\<close> followed by \<open>Get\<close> returns the value),
  fails at a \<open>nil\<close> value: \<open>Set\<close> panics in \<open>AssertValidValue\<close> before it writes, and
  the key keeps the value it had.
\<close>

theorem Set_nil_value_counterexample:
  "fst (Set 1024 committed_store (Some key_b) None) = Inl InvalidValue
   \<and> Get (snd (Set 1024 committed_store (Some key_b) None)) (Some key_b) \<noteq> None"
  by (simp add: Set_def AssertValidKey_def AssertValidValue_def len_def key_b_def
      Get_def tree_Get_def working_nodes_def committed_store_def raw_def)

text \<open>
  C2, amended. On the working store (a store over the mutable tree): for every key and
  value that pass the validity assertions, \<open>Set\<close> returns and a following \<open>Get\<close> of the
  key returns the value; for every key, \<open>Delete\<close> returns and a following \<open>Get\<close>
  returns absent (\<open>nil\<close>); and for every key, \<open>Has\<close> is true exactly when \<open>Get\<close>
  returns a present value.
\<close>

theorem Set_Get_Delete_Has:
  assumes "tree st = Mutable m"
  shows "(AssertValidKey lim k = None \<and> AssertValidValue v = None \<longrightarrow>
            fst (Set lim st k v) = Inr () \<and> Get (snd (Set lim st k v)) k = v)
         \<and> fst (Delete st k) = Inr () \<and> Get (snd (Delete st k)) k = None
         \<and> (Has st k \<longleftrightarrow> Get st k \<noteq> None)"
proof (intro conjI impI)
  assume valid: "AssertValidKey lim k = None \<and> AssertValidValue v = None"
  with assms show "fst (Set lim st k v) = Inr ()"
    by (simp add: Set_valid_Mutable)
  from valid assms show "Get (snd (Set lim st k v)) k = v"
    by (simp add: Set_valid_Mutable Get_def tree_Get_def working_nodes_def
        map_of_upsert_same valid_value_Some)
next
  from assms show "fst (Delete st k) = Inr ()"
    by (simp add: Delete_Mutable)
  from assms show "Get (snd (Delete st k)) k = None"
    by (simp add: Delete_Mutable Get_def tree_Get_def working_nodes_def map_of_remove_key_same)
  show "Has st k \<longleftrightarrow> Get st k \<noteq> None"
    by (rule Has_iff_Get)
qed

theorem Set_Get_Delete_Has_witness:
  "fst (Set 1024 committed_store (Some key_a) (Some val_1)) = Inr ()
   \<and> Get (snd (Set 1024 committed_store (Some key_a) (Some val_1))) (Some key_a) = Some val_1
   \<and> fst (Delete committed_store (Some key_a)) = Inr ()
   \<and> Get (snd (Delete committed_store (Some key_a))) (Some key_a) = None
   \<and> Has committed_store (Some key_a) = (Get committed_store (Some key_a) \<noteq> None)"
proof -
  have valid: "AssertValidKey 1024 (Some key_a) = None \<and> AssertValidValue (Some val_1) = None"
    by (simp add: AssertValidKey_def AssertValidValue_def len_def key_a_def)
  from Set_Get_Delete_Has [OF committed_store_Mutable, of 1024 "Some key_a" "Some val_1"] valid
  show ?thesis by simp
qed

subsection \<open>Validation before a write\<close>

lemma Set_invalid_key:
  "AssertValidKey lim k \<noteq> None \<Longrightarrow> Set lim st k v = (Inl InvalidKey, st)"
  by (auto simp add: Set_def AssertValidKey_def split: if_splits)

lemma Set_invalid_value:
  "AssertValidKey lim k = None \<Longrightarrow> AssertValidValue v \<noteq> None \<Longrightarrow>
     Set lim st k v = (Inl InvalidValue, st)"
  by (auto simp add: Set_def AssertValidValue_def split: if_splits)

lemma Set_valid:
  "AssertValidKey lim k = None \<Longrightarrow> AssertValidValue v = None \<Longrightarrow>
     Set lim st k v =
       (case tree_Set (tree st) k v of
          Inl p \<Rightarrow> (Inl p, st)
        | Inr t' \<Rightarrow> (Inr (), st\<lparr>tree := t'\<rparr>))"
  by (simp add: Set_def)

lemma tree_Set_no_validation_panic:
  "tree_Set t k v \<noteq> Inl InvalidKey \<and> tree_Set t k v \<noteq> Inl InvalidValue"
  by (cases t) (simp_all add: tree_Set_def)

text \<open>
  C7. For every call \<open>Set(key, value)\<close>: with an invalid key (\<open>nil\<close>, empty, or otherwise
  failing the key assertion) the call panics with \<open>InvalidKey\<close>, with a valid key and an
  invalid (\<open>nil\<close>) value it panics with \<open>InvalidValue\<close>, and in both cases the write is
  aborted and the store, hence the working tree, is left as it was. For every valid key
  and value the validation branch is not taken and the write proceeds: the call is the
  tree's \<open>Set\<close>, its outcome is never a validation panic, and on the mutable tree it
  returns with the pair written into the working tree.
\<close>

theorem Set_validation:
  "(AssertValidKey lim k \<noteq> None \<longrightarrow> Set lim st k v = (Inl InvalidKey, st))
   \<and> (AssertValidKey lim k = None \<and> AssertValidValue v \<noteq> None \<longrightarrow>
        Set lim st k v = (Inl InvalidValue, st))
   \<and> (AssertValidKey lim k = None \<and> AssertValidValue v = None \<longrightarrow>
        Set lim st k v =
          (case tree_Set (tree st) k v of
             Inl p \<Rightarrow> (Inl p, st)
           | Inr t' \<Rightarrow> (Inr (), st\<lparr>tree := t'\<rparr>))
        \<and> fst (Set lim st k v) \<noteq> Inl InvalidKey
        \<and> fst (Set lim st k v) \<noteq> Inl InvalidValue
        \<and> (\<forall>m. tree st = Mutable m \<longrightarrow>
              fst (Set lim st k v) = Inr ()
              \<and> working_nodes (tree (snd (Set lim st k v)))
                  = upsert (raw k) (raw v) (working_nodes (tree st))))
   \<and> AssertValidKey lim None = Some InvalidKey
   \<and> AssertValidKey lim (Some []) = Some InvalidKey
   \<and> AssertValidValue None = Some InvalidValue"
proof -
  have valid: "Set lim st k v =
          (case tree_Set (tree st) k v of
             Inl p \<Rightarrow> (Inl p, st)
           | Inr t' \<Rightarrow> (Inr (), st\<lparr>tree := t'\<rparr>))
        \<and> fst (Set lim st k v) \<noteq> Inl InvalidKey
        \<and> fst (Set lim st k v) \<noteq> Inl InvalidValue
        \<and> (\<forall>m. tree st = Mutable m \<longrightarrow>
              fst (Set lim st k v) = Inr ()
              \<and> working_nodes (tree (snd (Set lim st k v)))
                  = upsert (raw k) (raw v) (working_nodes (tree st)))"
    if ok: "AssertValidKey lim k = None \<and> AssertValidValue v = None"
  proof -
    have eq: "Set lim st k v =
          (case tree_Set (tree st) k v of
             Inl p \<Rightarrow> (Inl p, st)
           | Inr t' \<Rightarrow> (Inr (), st\<lparr>tree := t'\<rparr>))"
      using ok by (simp add: Set_valid)
    have np: "fst (Set lim st k v) \<noteq> Inl InvalidKey \<and> fst (Set lim st k v) \<noteq> Inl InvalidValue"
      using tree_Set_no_validation_panic [of "tree st" k v]
      by (auto simp add: eq split: sum.splits)
    have mut: "fst (Set lim st k v) = Inr ()
              \<and> working_nodes (tree (snd (Set lim st k v)))
                  = upsert (raw k) (raw v) (working_nodes (tree st))"
      if "tree st = Mutable m" for m
      using that ok by (simp add: Set_valid_Mutable working_nodes_def)
    from eq np mut show ?thesis by blast
  qed
  have nil: "AssertValidKey lim None = Some InvalidKey
      \<and> AssertValidKey lim (Some []) = Some InvalidKey
      \<and> AssertValidValue None = Some InvalidValue"
    by (simp add: AssertValidKey_def AssertValidValue_def len_def)
  from Set_invalid_key [of lim k st v] Set_invalid_value [of lim k v st] valid nil
  show ?thesis by blast
qed

theorem Set_validation_witness:
  "Set 1024 committed_store None (Some val_1) = (Inl InvalidKey, committed_store)
   \<and> Set 1024 committed_store (Some key_a) None = (Inl InvalidValue, committed_store)
   \<and> fst (Set 1024 committed_store (Some key_a) (Some val_1)) = Inr ()
   \<and> working_nodes (tree (snd (Set 1024 committed_store (Some key_a) (Some val_1))))
       = [(key_a, val_1), (key_b, val_2), (key_c, val_3)]"
proof -
  have a: "AssertValidKey 1024 None \<noteq> None"
    by (simp add: AssertValidKey_def len_def)
  have b: "AssertValidKey 1024 (Some key_a) = None \<and> AssertValidValue None \<noteq> None"
    by (simp add: AssertValidKey_def AssertValidValue_def len_def key_a_def)
  have c: "AssertValidKey 1024 (Some key_a) = None \<and> AssertValidValue (Some val_1) = None"
    by (simp add: AssertValidKey_def AssertValidValue_def len_def key_a_def)
  have u: "upsert (raw (Some key_a)) (raw (Some val_1)) (working_nodes (tree committed_store))
       = [(key_a, val_1), (key_b, val_2), (key_c, val_3)]"
    by (simp add: raw_def working_nodes_def committed_store_def key_a_def key_b_def)
  from Set_validation [where lim = 1024 and k = None and st = committed_store and v = "Some val_1"] a
  have "Set 1024 committed_store None (Some val_1) = (Inl InvalidKey, committed_store)"
    by blast
  moreover from Set_validation [where lim = 1024 and k = "Some key_a" and st = committed_store and v = None] b
  have "Set 1024 committed_store (Some key_a) None = (Inl InvalidValue, committed_store)"
    by blast
  moreover from Set_validation [where lim = 1024 and k = "Some key_a" and st = committed_store and v = "Some val_1"] c
    committed_store_Mutable
  have "fst (Set 1024 committed_store (Some key_a) (Some val_1)) = Inr ()
     \<and> working_nodes (tree (snd (Set 1024 committed_store (Some key_a) (Some val_1))))
         = upsert (raw (Some key_a)) (raw (Some val_1)) (working_nodes (tree committed_store))"
    by blast
  ultimately show ?thesis by (simp add: u)
qed

subsection \<open>Historical views and export\<close>

lemma VersionExists_Mutable_lookup:
  assumes "tree st = Mutable m" "VersionExists st v"
  shows "\<exists>snap. map_of (versions m) v = Some snap"
proof -
  from assms have "v \<in> fst ` set (versions m)"
    by (simp add: VersionExists_def tree_VersionExists_def)
  then have "map_of (versions m) v \<noteq> None"
    by (simp add: map_of_eq_None_iff)
  then show ?thesis by blast
qed

lemma GetImmutable_missing:
  "\<not> VersionExists st v \<Longrightarrow> GetImmutable st v = Inr \<lparr>tree = Immutable empty_ImmutableTree\<rparr>"
  by (simp add: GetImmutable_def)

lemma GetImmutable_existing:
  assumes "VersionExists st v"
  shows "\<exists>t. GetImmutable st v = Inr \<lparr>tree = Immutable t\<rparr> \<and> tree_GetImmutable (tree st) v = Inr t
           \<and> it_version t = v
           \<and> (\<forall>k. map_of (it_nodes t) (raw k) = tree_GetVersioned (tree st) k v)"
proof (cases "tree st")
  case (Mutable m)
  with assms obtain snap where "map_of (versions m) v = Some snap"
    using VersionExists_Mutable_lookup by blast
  with Mutable assms show ?thesis
    by (simp add: GetImmutable_def tree_GetImmutable_def tree_GetVersioned_def)
next
  case (Immutable i)
  with assms have "it_version i = v"
    by (simp add: VersionExists_def tree_VersionExists_def)
  with Immutable assms show ?thesis
    by (simp add: GetImmutable_def tree_GetImmutable_def tree_GetVersioned_def)
qed

lemma Immutable_read_only:
  "fst (Delete \<lparr>tree = Immutable t\<rparr> k) = Inl ImmutableMutation
   \<and> snd (Delete \<lparr>tree = Immutable t\<rparr> k) = \<lparr>tree = Immutable t\<rparr>
   \<and> (\<exists>p. fst (Set lim \<lparr>tree = Immutable t\<rparr> k v) = Inl p)
   \<and> snd (Set lim \<lparr>tree = Immutable t\<rparr> k v) = \<lparr>tree = Immutable t\<rparr>"
  by (simp add: Delete_def Set_def tree_Remove_def tree_Set_def split: option.splits)

lemma committed_store_versions:
  "VersionExists committed_store 1" "VersionExists committed_store 2"
  "\<not> VersionExists committed_store 7"
  by (simp_all add: VersionExists_def tree_VersionExists_def committed_store_def)

text \<open>
  C5. For every version \<open>v\<close> with \<open>VersionExists v\<close> false, \<open>GetImmutable v\<close> returns no
  error and a store over the empty immutable tree (every \<open>Get\<close> on it is absent, every
  \<open>Has\<close> false); for every version \<open>v\<close> with \<open>VersionExists v\<close> true it returns a store
  over an immutable tree at version \<open>v\<close> whose reads are the reads of the tree at \<open>v\<close> and
  on which \<open>Set\<close> and \<open>Delete\<close> panic and change nothing.
\<close>

theorem GetImmutable_view:
  "(\<not> VersionExists st v \<longrightarrow>
      GetImmutable st v = Inr \<lparr>tree = Immutable empty_ImmutableTree\<rparr>
      \<and> (\<forall>k. Get \<lparr>tree = Immutable empty_ImmutableTree\<rparr> k = None
             \<and> \<not> Has \<lparr>tree = Immutable empty_ImmutableTree\<rparr> k))
   \<and> (VersionExists st v \<longrightarrow>
        (\<exists>t. GetImmutable st v = Inr \<lparr>tree = Immutable t\<rparr>
           \<and> tree_Version (tree \<lparr>tree = Immutable t\<rparr>) = v
           \<and> (\<forall>k. Get \<lparr>tree = Immutable t\<rparr> k = tree_GetVersioned (tree st) k v)
           \<and> (\<forall>lim k val. (\<exists>p. fst (Set lim \<lparr>tree = Immutable t\<rparr> k val) = Inl p)
                 \<and> snd (Set lim \<lparr>tree = Immutable t\<rparr> k val) = \<lparr>tree = Immutable t\<rparr>
                 \<and> fst (Delete \<lparr>tree = Immutable t\<rparr> k) = Inl ImmutableMutation
                 \<and> snd (Delete \<lparr>tree = Immutable t\<rparr> k) = \<lparr>tree = Immutable t\<rparr>)))"
proof -
  have missing: "GetImmutable st v = Inr \<lparr>tree = Immutable empty_ImmutableTree\<rparr>
      \<and> (\<forall>k. Get \<lparr>tree = Immutable empty_ImmutableTree\<rparr> k = None
             \<and> \<not> Has \<lparr>tree = Immutable empty_ImmutableTree\<rparr> k)"
    if "\<not> VersionExists st v"
    using that
    by (simp add: GetImmutable_missing Get_def Has_def tree_Get_def tree_Has_def
        working_nodes_def empty_ImmutableTree_def)
  have existing: "\<exists>t. GetImmutable st v = Inr \<lparr>tree = Immutable t\<rparr>
           \<and> tree_Version (tree \<lparr>tree = Immutable t\<rparr>) = v
           \<and> (\<forall>k. Get \<lparr>tree = Immutable t\<rparr> k = tree_GetVersioned (tree st) k v)
           \<and> (\<forall>lim k val. (\<exists>p. fst (Set lim \<lparr>tree = Immutable t\<rparr> k val) = Inl p)
                 \<and> snd (Set lim \<lparr>tree = Immutable t\<rparr> k val) = \<lparr>tree = Immutable t\<rparr>
                 \<and> fst (Delete \<lparr>tree = Immutable t\<rparr> k) = Inl ImmutableMutation
                 \<and> snd (Delete \<lparr>tree = Immutable t\<rparr> k) = \<lparr>tree = Immutable t\<rparr>)"
    if "VersionExists st v"
  proof -
    from that obtain t where t: "GetImmutable st v = Inr \<lparr>tree = Immutable t\<rparr>"
        "it_version t = v"
        "\<forall>k. map_of (it_nodes t) (raw k) = tree_GetVersioned (tree st) k v"
      using GetImmutable_existing by blast
    have "tree_Version (tree \<lparr>tree = Immutable t\<rparr>) = v"
      using t(2) by (simp add: tree_Version_def)
    moreover have "\<forall>k. Get \<lparr>tree = Immutable t\<rparr> k = tree_GetVersioned (tree st) k v"
      using t(3) by (simp add: Get_def tree_Get_def working_nodes_def)
    ultimately show ?thesis
      using t(1) Immutable_read_only by blast
  qed
  from missing existing show ?thesis by blast
qed

theorem GetImmutable_view_witness:
  "\<not> VersionExists committed_store 7
   \<and> GetImmutable committed_store 7 = Inr \<lparr>tree = Immutable empty_ImmutableTree\<rparr>
   \<and> VersionExists committed_store 1
   \<and> (\<exists>t. GetImmutable committed_store 1 = Inr \<lparr>tree = Immutable t\<rparr>
         \<and> Get \<lparr>tree = Immutable t\<rparr> (Some key_a) = Some val_1
         \<and> fst (Delete \<lparr>tree = Immutable t\<rparr> (Some key_a)) = Inl ImmutableMutation)"
proof -
  have a: "\<not> VersionExists committed_store 7" and b: "VersionExists committed_store 1"
    by (rule committed_store_versions)+
  have g: "tree_GetVersioned (tree committed_store) (Some key_a) 1 = Some val_1"
    by (simp add: tree_GetVersioned_def committed_store_def raw_def)
  from GetImmutable_view [of committed_store 7] a
  have "GetImmutable committed_store 7 = Inr \<lparr>tree = Immutable empty_ImmutableTree\<rparr>"
    by blast
  moreover from GetImmutable_view [of committed_store 1] b
  obtain t where "GetImmutable committed_store 1 = Inr \<lparr>tree = Immutable t\<rparr>"
     "\<forall>k. Get \<lparr>tree = Immutable t\<rparr> k = tree_GetVersioned (tree committed_store) k 1"
     "\<forall>k. fst (Delete \<lparr>tree = Immutable t\<rparr> k) = Inl ImmutableMutation"
    by blast
  ultimately show ?thesis using a b g by auto
qed

lemma Export_missing:
  "\<not> VersionExists st v \<Longrightarrow>
     Export tree_Export st v =
       (case tree_Export empty_ImmutableTree of
          Inl p \<Rightarrow> Inl p
        | Inr exporter \<Rightarrow> Inr (Inr exporter))"
  by (simp add: Export_def GetImmutable_missing)

text \<open>
  C3. The spec asks that \<open>Export v\<close> fail with an error for every version that cannot be
  resolved to a concrete immutable snapshot. The code does not do so: version 7 of
  \<open>committed_store\<close> was never committed, \<open>GetImmutable\<close> answers with the empty view and
  no error, both error checks of \<open>Export\<close> pass, and the outcome is that of exporting
  the zero-valued tree (an exporter or a panic, whatever \<open>tree.Export()\<close> does there),
  never an error return.
\<close>

theorem Export_missing_version_not_an_error:
  "\<not> VersionExists committed_store 7
   \<and> GetImmutable committed_store 7 = Inr \<lparr>tree = Immutable empty_ImmutableTree\<rparr>
   \<and> Export tree_Export committed_store 7 =
       (case tree_Export empty_ImmutableTree of
          Inl p \<Rightarrow> Inl p
        | Inr exporter \<Rightarrow> Inr (Inr exporter))
   \<and> (\<forall>e. Export tree_Export committed_store 7 \<noteq> Inr (Inl e))"
proof -
  have h: "\<not> VersionExists committed_store 7" by (rule committed_store_versions)
  have e: "Export tree_Export committed_store 7 =
       (case tree_Export empty_ImmutableTree of
          Inl p \<Rightarrow> Inl p
        | Inr exporter \<Rightarrow> Inr (Inr exporter))"
    using h by (rule Export_missing)
  have "\<forall>e. Export tree_Export committed_store 7 \<noteq> Inr (Inl e)"
    by (simp add: e split: sum.splits)
  with h e show ?thesis
    by (simp add: GetImmutable_missing)
qed

subsection \<open>Queries\<close>

lemma Query_key_no_version:
  assumes "len (ReqData req) \<noteq> 0" "ReqPath req = ''/key''"
    "\<not> VersionExists st (getHeight (tree st) req)"
  shows "Query marshal st req =
           (Inr (zero_ResponseQuery\<lparr>ResHeight := getHeight (tree st) req,
                   ResKey := ReqData req, ResLog := ErrVersionDoesNotExist_Error\<rparr>), st)"
  using assms by (simp add: Query_def Let_def)

text \<open>
  C4, as stated (every query on path \<open>/key\<close> whose resolved height does not exist gets a
  soft answer), fails for an empty payload: the request is rejected before the path is
  looked at, the response is a hard failure, and its height is not the resolved one.
\<close>

theorem Query_empty_payload_counterexample:
  "getHeight (tree committed_store)
      \<lparr>ReqData = None, ReqPath = ''/key'', ReqHeight = 7, ReqProve = False\<rparr> = 7
   \<and> \<not> VersionExists committed_store 7
   \<and> fst (Query concat_marshal committed_store
            \<lparr>ReqData = None, ReqPath = ''/key'', ReqHeight = 7, ReqProve = False\<rparr>)
       = Inr \<lparr>ResCode = Some ErrTxDecode, ResLog = ''query cannot be zero length'',
              ResHeight = 0, ResKey = None, ResValue = None, ResProofOps = None\<rparr>"
  by (simp add: getHeight_def committed_store_versions Query_def len_def QueryResult_def
      zero_ResponseQuery_def)

text \<open>
  C4, amended. For every query with a non-empty payload on path \<open>/key\<close> whose resolved
  height does not exist as a committed version, the response is not a hard failure: its
  log carries the "version does not exist" error, its value is empty, its key echoes
  the request payload and its height echoes the resolved height.
\<close>

theorem Query_key_missing_version_soft:
  assumes "len (ReqData req) \<noteq> 0" "ReqPath req = ''/key''"
    "\<not> VersionExists st (getHeight (tree st) req)"
  shows "\<exists>res. fst (Query marshal st req) = Inr res
           \<and> ResCode res = None
           \<and> ResLog res = ''version does not exist''
           \<and> ResValue res = None
           \<and> ResKey res = ReqData req
           \<and> ResHeight res = getHeight (tree st) req"
  using assms
  by (simp add: Query_key_no_version zero_ResponseQuery_def ErrVersionDoesNotExist_Error_def)

theorem Query_key_missing_version_soft_witness:
  "\<exists>res. fst (Query concat_marshal committed_store
             \<lparr>ReqData = Some key_a, ReqPath = ''/key'', ReqHeight = 7, ReqProve = True\<rparr>) = Inr res
         \<and> ResCode res = None \<and> ResLog res = ''version does not exist''
         \<and> ResValue res = None \<and> ResKey res = Some key_a \<and> ResHeight res = 7"
proof -
  let ?req = "\<lparr>ReqData = Some key_a, ReqPath = ''/key'', ReqHeight = 7, ReqProve = True\<rparr>"
  have h: "getHeight (tree committed_store) ?req = 7"
    by (simp add: getHeight_def)
  have a: "len (ReqData ?req) \<noteq> 0" by (simp add: len_def key_a_def)
  have b: "ReqPath ?req = ''/key''" by simp
  have c: "\<not> VersionExists committed_store (getHeight (tree committed_store) ?req)"
    by (simp add: h committed_store_versions)
  from Query_key_missing_version_soft [OF a b c, of concat_marshal] h
  show ?thesis by simp
qed

lemma zero_commits_no_version:
  "tree st = Mutable m \<Longrightarrow> versions m = [] \<Longrightarrow> \<not> VersionExists st v"
  by (simp add: VersionExists_def tree_VersionExists_def)

text \<open>
  C8, as stated (with zero commits a \<open>/key\<close> query at height 0 returns the working
  version's state), fails: the working version of \<open>fresh_store\<close> maps the key to a value,
  and the query answers with no value and "version does not exist".
\<close>

theorem Query_zero_commits_counterexample:
  "Get fresh_store (Some key_a) = Some val_1
   \<and> fst (Query concat_marshal fresh_store
        \<lparr>ReqData = Some key_a, ReqPath = ''/key'', ReqHeight = 0, ReqProve = False\<rparr>)
      = Inr \<lparr>ResCode = None, ResLog = ''version does not exist'', ResHeight = 0,
             ResKey = Some key_a, ResValue = None, ResProofOps = None\<rparr>"
  by (simp add: fresh_store_def Get_def tree_Get_def working_nodes_def raw_def key_a_def val_1_def
      Query_def len_def getHeight_def tree_Version_def tree_VersionExists_def VersionExists_def
      zero_ResponseQuery_def ErrVersionDoesNotExist_Error_def)

text \<open>
  C8, amended. For a store with zero commits, a \<open>/key\<close> query with height 0 and a
  non-empty payload resolves to the tree's current version, which is not a committed
  version: the response carries "version does not exist" in its log and no value,
  with the key and the resolved height echoed; the working (uncommitted) state is not
  returned and the store is unchanged.
\<close>

theorem Query_zero_commits:
  assumes "tree st = Mutable m" "versions m = []"
    "len (ReqData req) \<noteq> 0" "ReqPath req = ''/key''" "ReqHeight req = 0"
  shows "Query marshal st req =
           (Inr \<lparr>ResCode = None, ResLog = ''version does not exist'',
                 ResHeight = tree_Version (tree st), ResKey = ReqData req,
                 ResValue = None, ResProofOps = None\<rparr>, st)"
proof -
  have nv: "\<not> VersionExists st v" for v
    using assms(1,2) by (rule zero_commits_no_version)
  have "getHeight (tree st) req = tree_Version (tree st)"
    using assms(5) nv by (simp add: getHeight_def Let_def VersionExists_def)
  with nv assms(3,4) show ?thesis
    by (simp add: Query_key_no_version zero_ResponseQuery_def ErrVersionDoesNotExist_Error_def)
qed

theorem Query_zero_commits_witness:
  "Query concat_marshal fresh_store
      \<lparr>ReqData = Some key_a, ReqPath = ''/key'', ReqHeight = 0, ReqProve = False\<rparr>
    = (Inr \<lparr>ResCode = None, ResLog = ''version does not exist'', ResHeight = 0,
            ResKey = Some key_a, ResValue = None, ResProofOps = None\<rparr>, fresh_store)"
proof -
  let ?req = "\<lparr>ReqData = Some key_a, ReqPath = ''/key'', ReqHeight = 0, ReqProve = False\<rparr>"
  let ?m = "\<lparr>working = \<lparr>it_version = 0, it_nodes = [(key_a, val_1)], it_hash = None\<rparr>,
         versions = []\<rparr>"
  have a: "tree fresh_store = Mutable ?m" by (simp add: fresh_store_def)
  have b: "versions ?m = []" by simp
  have c: "len (ReqData ?req) \<noteq> 0" by (simp add: len_def key_a_def)
  have d: "ReqPath ?req = ''/key''" by simp
  have e: "ReqHeight ?req = 0" by simp
  from Query_zero_commits [OF a b c d e, of concat_marshal] show ?thesis
    by (simp add: fresh_store_def tree_Version_def)
qed

subsection \<open>Proof construction\<close>

lemma GetMembershipProof_Inr:
  "GetMembershipProof m key = Inr cp \<Longrightarrow>
     \<exists>v. map_of (it_nodes (working m)) (raw key) = Some v
        \<and> cp = Membership (raw key) v (it_hash (working m))"
  by (auto simp add: GetMembershipProof_def split: option.splits)

lemma GetNonMembershipProof_Inr:
  "GetNonMembershipProof m key = Inr cp \<Longrightarrow>
     map_of (it_nodes (working m)) (raw key) = None
     \<and> cp = NonMembership (raw key) (it_hash (working m))"
  by (auto simp add: GetNonMembershipProof_def split: option.splits)

lemma Query_key_prove:
  assumes "len (ReqData req) \<noteq> 0" "ReqPath req = ''/key''" "ReqProve req"
    "VersionExists st (getHeight (tree st) req)"
    "tree_GetImmutable (tree st) (getHeight (tree st) req) = Inr t"
    "tree_GetVersioned (tree st) (ReqData req) (getHeight (tree st) req)
       = map_of (it_nodes t) (raw (ReqData req))"
  shows "fst (Query marshal st req) =
         Inr (zero_ResponseQuery\<lparr>ResHeight := getHeight (tree st) req, ResKey := ReqData req,
               ResValue := map_of (it_nodes t) (raw (ReqData req)),
               ResProofOps := Some [NewIavlCommitmentOp (ReqData req)
                 (case map_of (it_nodes t) (raw (ReqData req)) of
                    Some v \<Rightarrow> Membership (raw (ReqData req)) v (it_hash t)
                  | None \<Rightarrow> NonMembership (raw (ReqData req)) (it_hash t))]\<rparr>)"
  using assms
  by (cases "map_of (it_nodes t) (raw (ReqData req))")
     (simp_all add: Query_def Let_def getProofFromTree_def GetMembershipProof_def
        GetNonMembershipProof_def)

text \<open>
  C6. For every proof construction following a key lookup: if the lookup found a value
  (\<open>exists\<close>), a membership proof is built, and if it found none, a non-membership
  proof; when the tree cannot build the matching proof, \<open>getProofFromTree\<close> panics (it
  has no error result). In \<open>Query\<close> the flag is "the value read is not \<open>nil\<close>", so a
  proving \<open>/key\<close> query at an existing height answers, without failure code, with a
  membership proof of the value it read, or with a non-membership proof when it read
  none.
\<close>

theorem getProofFromTree_matches_lookup:
  "(exists \<longrightarrow>
      (\<forall>cp. GetMembershipProof m key = Inr cp \<longrightarrow>
         getProofFromTree m key exists = Inr [NewIavlCommitmentOp key cp]
         \<and> (\<exists>v h. cp = Membership (raw key) v h))
    \<and> (\<forall>err. GetMembershipProof m key = Inl err \<longrightarrow>
         getProofFromTree m key exists
           = Inl (PanicSprintf ''unexpected value for empty proof: %s'' err)))
   \<and> (\<not> exists \<longrightarrow>
      (\<forall>cp. GetNonMembershipProof m key = Inr cp \<longrightarrow>
         getProofFromTree m key exists = Inr [NewIavlCommitmentOp key cp]
         \<and> (\<exists>h. cp = NonMembership (raw key) h))
    \<and> (\<forall>err. GetNonMembershipProof m key = Inl err \<longrightarrow>
         getProofFromTree m key exists
           = Inl (PanicSprintf ''unexpected error for nonexistence proof: %s'' err)))
   \<and> (len (ReqData req) \<noteq> 0 \<and> ReqPath req = ''/key'' \<and> ReqProve req
        \<and> VersionExists st (getHeight (tree st) req) \<longrightarrow>
        (\<exists>res. fst (Query marshal st req) = Inr res \<and> ResCode res = None
           \<and> (case ResValue res of
                 Some v \<Rightarrow> \<exists>h. ResProofOps res
                    = Some [NewIavlCommitmentOp (ReqData req) (Membership (raw (ReqData req)) v h)]
               | None \<Rightarrow> \<exists>h. ResProofOps res
                    = Some [NewIavlCommitmentOp (ReqData req) (NonMembership (raw (ReqData req)) h)])))"
proof -
  have mem: "(\<forall>cp. GetMembershipProof m key = Inr cp \<longrightarrow>
         getProofFromTree m key exists = Inr [NewIavlCommitmentOp key cp]
         \<and> (\<exists>v h. cp = Membership (raw key) v h))
    \<and> (\<forall>err. GetMembershipProof m key = Inl err \<longrightarrow>
         getProofFromTree m key exists
           = Inl (PanicSprintf ''unexpected value for empty proof: %s'' err))"
    if exists
    using that GetMembershipProof_Inr [of m key]
    by (auto simp add: getProofFromTree_def)
  have non: "(\<forall>cp. GetNonMembershipProof m key = Inr cp \<longrightarrow>
         getProofFromTree m key exists = Inr [NewIavlCommitmentOp key cp]
         \<and> (\<exists>h. cp = NonMembership (raw key) h))
    \<and> (\<forall>err. GetNonMembershipProof m key = Inl err \<longrightarrow>
         getProofFromTree m key exists
           = Inl (PanicSprintf ''unexpected error for nonexistence proof: %s'' err))"
    if "\<not> exists"
    using that GetNonMembershipProof_Inr [of m key]
    by (auto simp add: getProofFromTree_def)
  have qry: "\<exists>res. fst (Query marshal st req) = Inr res \<and> ResCode res = None
           \<and> (case ResValue res of
                 Some v \<Rightarrow> \<exists>h. ResProofOps res
                    = Some [NewIavlCommitmentOp (ReqData req) (Membership (raw (ReqData req)) v h)]
               | None \<Rightarrow> \<exists>h. ResProofOps res
                    = Some [NewIavlCommitmentOp (ReqData req) (NonMembership (raw (ReqData req)) h)])"
    if q: "len (ReqData req) \<noteq> 0 \<and> ReqPath req = ''/key'' \<and> ReqProve req
        \<and> VersionExists st (getHeight (tree st) req)"
  proof -
    from q obtain t where t: "tree_GetImmutable (tree st) (getHeight (tree st) req) = Inr t"
      "\<forall>k. map_of (it_nodes t) (raw k) = tree_GetVersioned (tree st) k (getHeight (tree st) req)"
      using GetImmutable_existing by blast
    from t(2) have v: "tree_GetVersioned (tree st) (ReqData req) (getHeight (tree st) req)
      = map_of (it_nodes t) (raw (ReqData req))" by simp
    from q have "fst (Query marshal st req) =
         Inr (zero_ResponseQuery\<lparr>ResHeight := getHeight (tree st) req, ResKey := ReqData req,
               ResValue := map_of (it_nodes t) (raw (ReqData req)),
               ResProofOps := Some [NewIavlCommitmentOp (ReqData req)
                 (case map_of (it_nodes t) (raw (ReqData req)) of
                    Some v \<Rightarrow> Membership (raw (ReqData req)) v (it_hash t)
                  | None \<Rightarrow> NonMembership (raw (ReqData req)) (it_hash t))]\<rparr>)"
      by (simp add: Query_key_prove [OF _ _ _ _ t(1) v])
    then show ?thesis
      by (cases "map_of (it_nodes t) (raw (ReqData req))")
         (auto simp add: zero_ResponseQuery_def)
  qed
  from mem non qry show ?thesis by blast
qed


theorem getProofFromTree_matches_lookup_witness:
  "getProofFromTree \<lparr>working = \<lparr>it_version = 1, it_nodes = [(key_a, val_1)], it_hash = Some [0x01]\<rparr>,
       versions = []\<rparr> (Some key_a) True
     = Inr [\<lparr>op_key = Some key_a, op_proof = Membership key_a val_1 (Some [0x01])\<rparr>]
   \<and> getProofFromTree \<lparr>working = \<lparr>it_version = 1, it_nodes = [(key_a, val_1)], it_hash = Some [0x01]\<rparr>,
       versions = []\<rparr> (Some key_b) True
     = Inl (PanicSprintf ''unexpected value for empty proof: %s'' ErrKeyNotInTree)
   \<and> getProofFromTree \<lparr>working = \<lparr>it_version = 1, it_nodes = [(key_a, val_1)], it_hash = Some [0x01]\<rparr>,
       versions = []\<rparr> (Some key_b) False
     = Inr [\<lparr>op_key = Some key_b, op_proof = NonMembership key_b (Some [0x01])\<rparr>]
   \<and> getProofFromTree \<lparr>working = \<lparr>it_version = 1, it_nodes = [(key_a, val_1)], it_hash = Some [0x01]\<rparr>,
       versions = []\<rparr> (Some key_a) False
     = Inl (PanicSprintf ''unexpected error for nonexistence proof: %s'' ErrKeyInTree)
   \<and> (\<exists>res. fst (Query concat_marshal committed_store
            \<lparr>ReqData = Some key_a, ReqPath = ''/key'', ReqHeight = 1, ReqProve = True\<rparr>) = Inr res
         \<and> ResCode res = None \<and> ResValue res = Some val_1
         \<and> (\<exists>h. ResProofOps res = Some [NewIavlCommitmentOp (Some key_a) (Membership key_a val_1 h)]))"
proof -
  let ?m = "\<lparr>working = \<lparr>it_version = 1, it_nodes = [(key_a, val_1)], it_hash = Some [0x01]\<rparr>,
       versions = []\<rparr>"
  let ?req = "\<lparr>ReqData = Some key_a, ReqPath = ''/key'', ReqHeight = 1, ReqProve = True\<rparr>"
  have ma: "GetMembershipProof ?m (Some key_a) = Inr (Membership key_a val_1 (Some [0x01]))"
    by (simp add: GetMembershipProof_def raw_def)
  have mb: "GetMembershipProof ?m (Some key_b) = Inl ErrKeyNotInTree"
    by (simp add: GetMembershipProof_def raw_def key_a_def key_b_def)
  have nb: "GetNonMembershipProof ?m (Some key_b) = Inr (NonMembership key_b (Some [0x01]))"
    by (simp add: GetNonMembershipProof_def raw_def key_a_def key_b_def)
  have na: "GetNonMembershipProof ?m (Some key_a) = Inl ErrKeyInTree"
    by (simp add: GetNonMembershipProof_def raw_def)
  have h: "getHeight (tree committed_store) ?req = 1"
    by (simp add: getHeight_def)
  have q: "len (ReqData ?req) \<noteq> 0 \<and> ReqPath ?req = ''/key'' \<and> ReqProve ?req
        \<and> VersionExists committed_store (getHeight (tree committed_store) ?req)"
    using h committed_store_versions(1) by (simp add: len_def key_a_def)
  have v: "tree_GetVersioned (tree committed_store) (Some key_a) 1 = Some val_1"
    by (simp add: tree_GetVersioned_def committed_store_def raw_def)
  from getProofFromTree_matches_lookup [where exists = True and m = ?m and key = "Some key_a"] ma
  have 1: "getProofFromTree ?m (Some key_a) True
      = Inr [NewIavlCommitmentOp (Some key_a) (Membership key_a val_1 (Some [0x01]))]"
    by blast
  from getProofFromTree_matches_lookup [where exists = True and m = ?m and key = "Some key_b"] mb
  have 2: "getProofFromTree ?m (Some key_b) True
      = Inl (PanicSprintf ''unexpected value for empty proof: %s'' ErrKeyNotInTree)"
    by blast
  from getProofFromTree_matches_lookup [where exists = False and m = ?m and key = "Some key_b"] nb
  have 3: "getProofFromTree ?m (Some key_b) False
      = Inr [NewIavlCommitmentOp (Some key_b) (NonMembership key_b (Some [0x01]))]"
    by blast
  from getProofFromTree_matches_lookup [where exists = False and m = ?m and key = "Some key_a"] na
  have 4: "getProofFromTree ?m (Some key_a) False
      = Inl (PanicSprintf ''unexpected error for nonexistence proof: %s'' ErrKeyInTree)"
    by blast
  from getProofFromTree_matches_lookup [where req = ?req and st = committed_store
      and marshal = concat_marshal] q
  obtain res where r: "fst (Query concat_marshal committed_store ?req) = Inr res"
    "ResCode res = None"
    "case ResValue res of
       Some v \<Rightarrow> \<exists>h. ResProofOps res
          = Some [NewIavlCommitmentOp (ReqData ?req) (Membership (raw (ReqData ?req)) v h)]
     | None \<Rightarrow> \<exists>h. ResProofOps res
          = Some [NewIavlCommitmentOp (ReqData ?req) (NonMembership (raw (ReqData ?req)) h)]"
    by blast
  have rv: "ResValue res = Some val_1"
    using r(1) q by (auto simp add: Query_def Let_def h v split: sum.splits)
  from r rv have 5: "\<exists>res. fst (Query concat_marshal committed_store ?req) = Inr res
         \<and> ResCode res = None \<and> ResValue res = Some val_1
         \<and> (\<exists>h. ResProofOps res = Some [NewIavlCommitmentOp (Some key_a) (Membership key_a val_1 h)])"
    by (simp add: raw_def)
  from 1 2 3 4 5 show ?thesis by (simp add: NewIavlCommitmentOp_def)
qed

subsection \<open>Queries leave the store alone\<close>

text \<open>
  C10. \<open>Query\<close> is read-only: for every request, on any path, the store after the call
  is the store before it; in particular the contents of the working tree and
  \<open>LastCommitID\<close> are what they were.
\<close>

theorem Query_read_only:
  "snd (Query marshal st req) = st
   \<and> working_nodes (tree (snd (Query marshal st req))) = working_nodes (tree st)
   \<and> LastCommitID (snd (Query marshal st req)) = LastCommitID st"
proof -
  have "snd (Query marshal st req) = st"
    by (simp add: Query_def Let_def split: sum.splits)
  then show ?thesis by simp
qed

subsection \<open>Pruning accessors\<close>

text \<open>
  C9. Every call of \<open>SetPruning\<close> or \<open>GetPruning\<close> panics, whatever the arguments and
  the state of the store, and leaves the store as it was.
\<close>

theorem Pruning_accessors_panic:
  "fst (SetPruning st opts) = Inl (PanicString ''cannot set pruning options on an initialized IAVL store'')
   \<and> snd (SetPruning st opts) = st
   \<and> fst (GetPruning st) = Inl (PanicString ''cannot get pruning options on an initialized IAVL store'')
   \<and> snd (GetPruning st) = st"
  by (simp add: SetPruning_def GetPruning_def)

end
